theory Spec2Isabelle
  imports Main
begin

section \<open>Data model of \<^verbatim>\<open>consumer.go\<close>\<close>

text \<open>
  \<^verbatim>\<open>Set\<close> takes its value as an \<^verbatim>\<open>interface{}\<close> and inspects the dynamic type. The
  dynamic types the code distinguishes are \<^verbatim>\<open>string\<close>, \<^verbatim>\<open>int\<close> and \<^verbatim>\<open>[]string\<close>;
  \<open>VBool\<close> and \<open>VNil\<close> stand for the values of every other dynamic type (and the nil
  interface), which every type assertion of the file rejects. Go's \<^verbatim>\<open>int\<close> is only
  stored and passed on, never computed with, so it is an \<open>int\<close> here. A Go string is
  a byte sequence, a \<open>string\<close> here; a nil slice and an empty slice both have length 0
  and are both the list \<open>[]\<close>.
\<close>

datatype val =
    is_VString: VString string
  | is_VInt: VInt int
  | is_VStrings: VStrings "string list"
  | VBool bool
  | VNil

text \<open>
  Errors. \<open>OptionError k m\<close> is \<^verbatim>\<open>fmt.Errorf("%q: " + m, k)\<close>, the error \<^verbatim>\<open>Set\<close> builds
  for option \<open>k\<close>. \<open>MissingAddress\<close> is the error of \<^verbatim>\<open>connect\<close>, whose Go text is
  \<^verbatim>\<open>at least one "nsqd" or "nsqlookupd" address must be specified\<close>. \<open>NsqError m\<close> is an
  error value handed back by the go-nsq library and passed on unchanged; \<open>m\<close> is its
  message.
\<close>

datatype error =
    OptionError string string
  | MissingAddress
  | NsqError string

text \<open>\<^verbatim>\<open>nsq.LogLevel\<close> of the library, and the \<^verbatim>\<open>logger\<close> interface of the package.\<close>

datatype LogLevel = LogLevelDebug | LogLevelInfo | LogLevelWarning | LogLevelError

datatype logger =
    StderrLogger  \<comment> \<open>\<^verbatim>\<open>log.New(os.Stderr, "", log.LstdFlags)\<close>\<close>
  | UserLogger nat

text \<open>
  The \<^verbatim>\<open>Consumer\<close> struct, field by field. \<open>client\<close> is the pointer to the library's
  consumer (\<open>None\<close> is nil, \<open>Some p\<close> the handle \<open>p\<close>); \<open>err\<close> is the error field
  (\<open>None\<close> is nil). The configuration object is reached through a pointer that the
  package never shares, so the field holds the object itself.
\<close>

record 'cfg Consumer =
  client :: "nat option"
  config :: 'cfg
  nsqds :: "string list"
  nsqlookupds :: "string list"
  concurrency :: int
  channel :: string
  topic :: string
  level :: LogLevel
  log :: logger
  err :: "error option"

section \<open>The go-nsq library as a parameter\<close>

text \<open>
  The library is not part of the repository. Its entry points are the fields of a
  record: \<open>'cfg\<close> is \<^verbatim>\<open>nsq.Config\<close>, and \<open>'w\<close> is everything outside the wrapper that
  the library reads and changes (its clients, sockets, the network). A library error
  is given by its message.
\<close>

record ('cfg, 'w) nsq =
  NewConfig :: 'cfg
  ConfigSet :: "'cfg \<Rightarrow> string \<Rightarrow> val \<Rightarrow> 'cfg \<times> string option"
  nsq_NewConsumer :: "string \<Rightarrow> string \<Rightarrow> 'cfg \<Rightarrow> 'w \<Rightarrow> (string + nat) \<times> 'w"
  nsq_SetLogger :: "nat \<Rightarrow> logger \<Rightarrow> LogLevel \<Rightarrow> 'w \<Rightarrow> 'w"
  AddConcurrentHandlers :: "nat \<Rightarrow> nat \<Rightarrow> int \<Rightarrow> 'w \<Rightarrow> 'w"
  ConnectToNSQDs :: "nat \<Rightarrow> string list \<Rightarrow> 'w \<Rightarrow> string option \<times> 'w"
  ConnectToNSQLookupds :: "nat \<Rightarrow> string list \<Rightarrow> 'w \<Rightarrow> string option \<times> 'w"

text \<open>The calls \<^verbatim>\<open>Start\<close> makes into the library, in the order it makes them.\<close>

datatype call =
    CallNewConsumer string string
  | CallSetLogger logger LogLevel
  | CallAddConcurrentHandlers nat int
  | CallConnectToNSQDs "string list"
  | CallConnectToNSQLookupds "string list"

section \<open>Construction and the logger\<close>

definition NewConsumer :: "('cfg, 'w) nsq \<Rightarrow> string \<Rightarrow> string \<Rightarrow> 'cfg Consumer" where
  "NewConsumer L topic' channel' =
     \<lparr> client = None,
       config = NewConfig L,
       nsqds = [],
       nsqlookupds = [],
       concurrency = 1,
       channel = channel',
       topic = topic',
       level = LogLevelInfo,
       log = StderrLogger,
       err = None \<rparr>"

definition SetLogger :: "logger \<Rightarrow> LogLevel \<Rightarrow> 'cfg Consumer \<Rightarrow> 'cfg Consumer" where
  "SetLogger lg lv c = c\<lparr>level := lv, log := lg\<rparr>"

section \<open>Splitting an address list\<close>

text \<open>
  \<^verbatim>\<open>strings.FieldsFunc\<close> walks the string once. Its variable \<^verbatim>\<open>start\<close> is negative
  between fields (\<open>None\<close>) and otherwise marks where the current field began
  (\<open>Some w\<close>, with \<open>w\<close> the bytes of the field read so far). The function decodes
  UTF-8, but both separators are ASCII and no byte of a longer encoding (or of an
  invalid one, decoded to U+FFFD) is an ASCII byte, so testing bytes gives the same
  fields.
\<close>

fun FieldsFunc_loop :: "(char \<Rightarrow> bool) \<Rightarrow> string option \<Rightarrow> string \<Rightarrow> string list" where
  "FieldsFunc_loop f None [] = []"
| "FieldsFunc_loop f (Some w) [] = [w]"
| "FieldsFunc_loop f None (r # s) =
     (if f r then FieldsFunc_loop f None s else FieldsFunc_loop f (Some [r]) s)"
| "FieldsFunc_loop f (Some w) (r # s) =
     (if f r then w # FieldsFunc_loop f None s else FieldsFunc_loop f (Some (w @ [r])) s)"

definition FieldsFunc :: "string \<Rightarrow> (char \<Rightarrow> bool) \<Rightarrow> string list" where
  "FieldsFunc s f = FieldsFunc_loop f None s"

text \<open>The function literal handed to \<^verbatim>\<open>FieldsFunc\<close>.\<close>

definition is_separator :: "char \<Rightarrow> bool" where
  "is_separator r = (if r = CHR '','' \<or> r = CHR '' '' then True else False)"

definition split :: "val \<Rightarrow> string + string list" where
  "split v =
     (case v of
        VStrings xs \<Rightarrow> Inr xs
      | VString s \<Rightarrow> Inr (FieldsFunc s is_separator)
      | _ \<Rightarrow> Inl ''expected string or slice of strings'')"

section \<open>Setting options\<close>

definition Set :: "('cfg, 'w) nsq \<Rightarrow> string \<Rightarrow> val \<Rightarrow> 'cfg Consumer \<Rightarrow> 'cfg Consumer" where
  "Set L option v c =
     (if option = ''topic'' then
        (case v of VString s \<Rightarrow> c\<lparr>topic := s\<rparr>
         | _ \<Rightarrow> c\<lparr>err := Some (OptionError option ''expected string'')\<rparr>)
      else if option = ''channel'' then
        (case v of VString s \<Rightarrow> c\<lparr>channel := s\<rparr>
         | _ \<Rightarrow> c\<lparr>err := Some (OptionError option ''expected string'')\<rparr>)
      else if option = ''concurrency'' then
        (case v of VInt s \<Rightarrow> c\<lparr>concurrency := s\<rparr>
         | _ \<Rightarrow> c\<lparr>err := Some (OptionError option ''expected integer'')\<rparr>)
      else if option = ''nsqd'' then
        (case v of VString s \<Rightarrow> c\<lparr>nsqds := [s]\<rparr>
         | _ \<Rightarrow> c\<lparr>err := Some (OptionError option ''expected string'')\<rparr>)
      else if option = ''nsqlookupd'' then
        (case v of VString s \<Rightarrow> c\<lparr>nsqlookupds := [s]\<rparr>
         | _ \<Rightarrow> c\<lparr>err := Some (OptionError option ''expected string'')\<rparr>)
      else if option = ''nsqds'' then
        (case split v of Inr s \<Rightarrow> c\<lparr>nsqds := s\<rparr>
         | Inl e \<Rightarrow> c\<lparr>err := Some (OptionError option e)\<rparr>)
      else if option = ''nsqlookupds'' then
        (case split v of Inr s \<Rightarrow> c\<lparr>nsqlookupds := s\<rparr>
         | Inl e \<Rightarrow> c\<lparr>err := Some (OptionError option e)\<rparr>)
      else
        (case ConfigSet L (config c) option v of
           (cfg, Some e) \<Rightarrow> c\<lparr>config := cfg, err := Some (NsqError e)\<rparr>
         | (cfg, None) \<Rightarrow> c\<lparr>config := cfg\<rparr>))"

text \<open>
  \<^verbatim>\<open>SetMap\<close> ranges over a Go map, whose iteration order the runtime chooses. The
  argument is the list of the map's entries in the order of that iteration.
\<close>

definition SetMap :: "('cfg, 'w) nsq \<Rightarrow> (string \<times> val) list \<Rightarrow> 'cfg Consumer \<Rightarrow> 'cfg Consumer" where
  "SetMap L options c = fold (\<lambda>(k, v). Set L k v) options c"

section \<open>Starting the consumer\<close>

text \<open>
  What a call does: it returns its \<^verbatim>\<open>error\<close> result (\<open>None\<close> is nil), or it panics
  on a nil \<^verbatim>\<open>client\<close> pointer.
\<close>

datatype outcome = Return "error option" | Panic

text \<open>
  \<^verbatim>\<open>connect\<close> gives its outcome, the world after it, and the library calls it made.
  It reads \<^verbatim>\<open>c.client\<close> only where it calls a method on it.
\<close>

definition connect :: "('cfg, 'w) nsq \<Rightarrow> 'cfg Consumer \<Rightarrow> 'w \<Rightarrow> outcome \<times> 'w \<times> call list" where
  "connect L c w =
     (if length (nsqds c) = 0 \<and> length (nsqlookupds c) = 0 then
        (Return (Some MissingAddress), w, [])
      else
        (case (if length (nsqds c) > 0 then
                 (case client c of
                    None \<Rightarrow> (Panic, w, [])
                  | Some p \<Rightarrow>
                      (case ConnectToNSQDs L p (nsqds c) w of
                         (Some e, w') \<Rightarrow> (Return (Some (NsqError e)), w', [CallConnectToNSQDs (nsqds c)])
                       | (None, w') \<Rightarrow> (Return None, w', [CallConnectToNSQDs (nsqds c)])))
               else (Return None, w, [])) of
           (Return None, w1, t1) \<Rightarrow>
             (if length (nsqlookupds c) > 0 then
                (case client c of
                   None \<Rightarrow> (Panic, w1, t1)
                 | Some p \<Rightarrow>
                     (case ConnectToNSQLookupds L p (nsqlookupds c) w1 of
                        (Some e, w2) \<Rightarrow>
                          (Return (Some (NsqError e)), w2, t1 @ [CallConnectToNSQLookupds (nsqlookupds c)])
                      | (None, w2) \<Rightarrow>
                          (Return None, w2, t1 @ [CallConnectToNSQLookupds (nsqlookupds c)])))
              else (Return None, w1, t1))
         | stopped \<Rightarrow> stopped))"

text \<open>
  \<^verbatim>\<open>Start\<close> gives its outcome, the consumer after it, the world after it, and the
  library calls it made. The handler is an opaque value, named by a number.
\<close>

definition Start ::
  "('cfg, 'w) nsq \<Rightarrow> nat \<Rightarrow> 'cfg Consumer \<Rightarrow> 'w \<Rightarrow> outcome \<times> 'cfg Consumer \<times> 'w \<times> call list" where
  "Start L handler c w =
     (case err c of
        Some e \<Rightarrow> (Return (Some e), c, w, [])
      | None \<Rightarrow>
          (case nsq_NewConsumer L (topic c) (channel c) (config c) w of
             (Inl e, w1) \<Rightarrow>
               (Return (Some (NsqError e)), c, w1, [CallNewConsumer (topic c) (channel c)])
           | (Inr p, w1) \<Rightarrow>
               (let c1 = c\<lparr>client := Some p\<rparr>;
                    w2 = nsq_SetLogger L p (log c1) (level c1) w1;
                    w3 = AddConcurrentHandlers L p handler (concurrency c1) w2
                in (case connect L c1 w3 of
                      (r, w4, t) \<Rightarrow>
                        (r, c1, w4,
                         [CallNewConsumer (topic c) (channel c),
                          CallSetLogger (log c1) (level c1),
                          CallAddConcurrentHandlers handler (concurrency c1)] @ t)))))"

text \<open>The four components of what \<^verbatim>\<open>Start\<close> gives.\<close>

definition returned :: "outcome \<times> 'cfg Consumer \<times> 'w \<times> call list \<Rightarrow> outcome" where
  "returned x = fst x"

definition consumer_after :: "outcome \<times> 'cfg Consumer \<times> 'w \<times> call list \<Rightarrow> 'cfg Consumer" where
  "consumer_after x = fst (snd x)"

definition calls_made :: "outcome \<times> 'cfg Consumer \<times> 'w \<times> call list \<Rightarrow> call list" where
  "calls_made x = snd (snd (snd x))"

text \<open>
  The world the library is left in when \<^verbatim>\<open>Start\<close> reaches \<^verbatim>\<open>connect\<close>, and the calls
  made up to there.
\<close>

definition after_construction :: "('cfg, 'w) nsq \<Rightarrow> nat \<Rightarrow> 'cfg Consumer \<Rightarrow> nat \<Rightarrow> 'w \<Rightarrow> 'w" where
  "after_construction L handler c p w1 =
     AddConcurrentHandlers L p handler (concurrency c) (nsq_SetLogger L p (log c) (level c) w1)"

definition setup_calls :: "nat \<Rightarrow> 'cfg Consumer \<Rightarrow> call list" where
  "setup_calls handler c =
     [CallNewConsumer (topic c) (channel c),
      CallSetLogger (log c) (level c),
      CallAddConcurrentHandlers handler (concurrency c)]"

text \<open>The two connection calls among the library calls.\<close>

definition is_connect :: "call \<Rightarrow> bool" where
  "is_connect x =
     (case x of CallConnectToNSQDs a \<Rightarrow> True | CallConnectToNSQLookupds a \<Rightarrow> True | _ \<Rightarrow> False)"

section \<open>Sequences of configuration calls\<close>

text \<open>
  A builder is configured by any sequence of \<^verbatim>\<open>SetLogger\<close>, \<^verbatim>\<open>Set\<close> and \<^verbatim>\<open>SetMap\<close> calls.
  \<open>requests\<close> lists the integers that the calls of a step hand to the option
  \<^verbatim>\<open>concurrency\<close>, in the order of the calls.
\<close>

datatype step =
    DoSetLogger logger LogLevel
  | DoSet string val
  | DoSetMap "(string \<times> val) list"

fun apply_step :: "('cfg, 'w) nsq \<Rightarrow> step \<Rightarrow> 'cfg Consumer \<Rightarrow> 'cfg Consumer" where
  "apply_step L (DoSetLogger lg lv) c = SetLogger lg lv c"
| "apply_step L (DoSet k v) c = Set L k v c"
| "apply_step L (DoSetMap options) c = SetMap L options c"

definition configure :: "('cfg, 'w) nsq \<Rightarrow> step list \<Rightarrow> 'cfg Consumer \<Rightarrow> 'cfg Consumer" where
  "configure L steps c = fold (apply_step L) steps c"

definition requested :: "string \<times> val \<Rightarrow> int list" where
  "requested kv =
     (if fst kv = ''concurrency'' then (case snd kv of VInt n \<Rightarrow> [n] | _ \<Rightarrow> []) else [])"

fun requests :: "step \<Rightarrow> int list" where
  "requests (DoSetLogger lg lv) = []"
| "requests (DoSet k v) = requested (k, v)"
| "requests (DoSetMap options) = concat (map requested options)"

text \<open>
  The error a call of \<^verbatim>\<open>Set\<close> records by itself is the one it leaves in an error field
  that was nil before the call (\<open>None\<close> when the call succeeds). \<open>option_errors\<close>,
  \<open>step_errors\<close> and \<open>recorded\<close> list these errors for the calls of a map, of a step
  and of a sequence of steps, in the order of the calls, each call on the builder the
  calls before it have left.
\<close>

definition own_error :: "('cfg, 'w) nsq \<Rightarrow> string \<Rightarrow> val \<Rightarrow> 'cfg Consumer \<Rightarrow> error option" where
  "own_error L k v c = err (Set L k v (c\<lparr>err := None\<rparr>))"

fun option_errors :: "('cfg, 'w) nsq \<Rightarrow> (string \<times> val) list \<Rightarrow> 'cfg Consumer \<Rightarrow> error list" where
  "option_errors L [] c = []"
| "option_errors L (kv # options) c =
     (case own_error L (fst kv) (snd kv) c of None \<Rightarrow> [] | Some e \<Rightarrow> [e]) @
     option_errors L options (Set L (fst kv) (snd kv) c)"

fun step_errors :: "('cfg, 'w) nsq \<Rightarrow> step \<Rightarrow> 'cfg Consumer \<Rightarrow> error list" where
  "step_errors L (DoSetLogger lg lv) c = []"
| "step_errors L (DoSet k v) c = option_errors L [(k, v)] c"
| "step_errors L (DoSetMap options) c = option_errors L options c"

fun recorded :: "('cfg, 'w) nsq \<Rightarrow> step list \<Rightarrow> 'cfg Consumer \<Rightarrow> error list" where
  "recorded L [] c = []"
| "recorded L (st # steps) c = step_errors L st c @ recorded L steps (apply_step L st c)"

section \<open>The option rules as the specification words them\<close>

text \<open>
  The specification describes the fields of an address string as the maximal runs of
  characters that are not delimiters: skip the delimiters, take characters up to the
  next delimiter, and go on from there.
\<close>

function maximal_runs :: "(char \<Rightarrow> bool) \<Rightarrow> string \<Rightarrow> string list" where
  "maximal_runs d s =
     (let t = dropWhile d s
      in if t = [] then []
         else takeWhile (\<lambda>c. \<not> d c) t # maximal_runs d (dropWhile (\<lambda>c. \<not> d c) t))"
  by pat_completeness auto
termination
proof (relation "measure (\<lambda>(d, s). length s)")
  show "wf (measure (\<lambda>(d, s). length s))" by simp
next
  fix d :: "char \<Rightarrow> bool" and s t :: string
  assume t: "t = dropWhile d s" and ne: "t \<noteq> []"
  from ne obtain a u where au: "t = a # u" by (cases t) auto
  have "dropWhile d s = a # u" using t au by simp
  then have "\<not> d a" by (simp add: dropWhile_eq_Cons_conv)
  then have "length (dropWhile (\<lambda>c. \<not> d c) t) \<le> length u"
    using au length_dropWhile_le [of "\<lambda>c. \<not> d c" u] by simp
  moreover have "length t \<le> length s" using t length_dropWhile_le by simp
  ultimately show "((d, dropWhile (\<lambda>c. \<not> d c) t), (d, s)) \<in> measure (\<lambda>(d, s). length s)"
    using au by simp
qed

declare maximal_runs.simps [simp del]

text \<open>
  The table of recognized keys: the keys, the value shape each one expects, and the text
  that names the expected type in the error.
\<close>

definition recognized :: "string \<Rightarrow> bool" where
  "recognized k =
     (k \<in> set [''topic'', ''channel'', ''concurrency'', ''nsqd'', ''nsqlookupd'', ''nsqds'',
               ''nsqlookupds''])"

definition shape_ok :: "string \<Rightarrow> val \<Rightarrow> bool" where
  "shape_ok k v =
     (if k = ''concurrency'' then is_VInt v
      else if k = ''nsqds'' \<or> k = ''nsqlookupds'' then is_VString v \<or> is_VStrings v
      else is_VString v)"

definition expected_text :: "string \<Rightarrow> string" where
  "expected_text k =
     (if k = ''concurrency'' then ''expected integer''
      else if k = ''nsqds'' \<or> k = ''nsqlookupds'' then ''expected string or slice of strings''
      else ''expected string'')"

text \<open>A string made of commas and spaces only; the empty string is one.\<close>

definition only_separators :: "string \<Rightarrow> bool" where
  "only_separators s = (\<forall>r \<in> set s. r = CHR '','' \<or> r = CHR '' '')"

section \<open>A stand-in library for worked examples\<close>

text \<open>
  A small fake of the library: the configuration is the list of options accepted so
  far and knows one integer option; the world counts the clients built, and the
  count names the next client; an empty topic is refused; an address starting with
  \<open>x\<close> cannot be dialled.
\<close>

definition fake_nsq :: "((string \<times> val) list, nat) nsq" where
  "fake_nsq =
     \<lparr> NewConfig = [],
       ConfigSet = (\<lambda>cfg k v.
         if k = ''max_in_flight'' then
           (case v of VInt n \<Rightarrow> ((k, v) # cfg, None) | _ \<Rightarrow> (cfg, Some ''failed to coerce option''))
         else (cfg, Some ''invalid option'')),
       nsq_NewConsumer = (\<lambda>t ch cfg w.
         if t = [] then (Inl ''invalid topic name'', w) else (Inr w, Suc w)),
       nsq_SetLogger = (\<lambda>p lg lv w. w),
       AddConcurrentHandlers = (\<lambda>p h n w. w),
       ConnectToNSQDs = (\<lambda>p addrs w.
         if list_ex (\<lambda>a. take 1 a = ''x'') addrs then (Some ''connection refused'', w) else (None, w)),
       ConnectToNSQLookupds = (\<lambda>p addrs w.
         if list_ex (\<lambda>a. take 1 a = ''x'') addrs then (Some ''connection refused'', w) else (None, w)) \<rparr>"

text \<open>A builder with both address lists set: the direct one from a string, one discovery address.\<close>

definition both_lists :: "string \<Rightarrow> (string \<times> val) list Consumer" where
  "both_lists direct =
     Set fake_nsq ''nsqlookupd'' (VString ''lookup:4161'')
       (Set fake_nsq ''nsqds'' (VString direct) (NewConsumer fake_nsq ''orders'' ''workers''))"

section \<open>Address lists\<close>

lemma maximal_runs_Nil: "maximal_runs d [] = []"
  by (simp add: maximal_runs.simps)

lemma maximal_runs_sep: "d r \<Longrightarrow> maximal_runs d (r # s) = maximal_runs d s"
  by (simp add: maximal_runs.simps [of d "r # s"] maximal_runs.simps [of d s])

lemma maximal_runs_char:
  "\<not> d r \<Longrightarrow> maximal_runs d (r # s) =
     (r # takeWhile (\<lambda>c. \<not> d c) s) # maximal_runs d (dropWhile (\<lambda>c. \<not> d c) s)"
  by (simp add: maximal_runs.simps [of d "r # s"])

lemma FieldsFunc_loop_runs:
  "FieldsFunc_loop f st s =
     (case st of
        None \<Rightarrow> maximal_runs f s
      | Some w \<Rightarrow> (w @ takeWhile (\<lambda>c. \<not> f c) s) # maximal_runs f (dropWhile (\<lambda>c. \<not> f c) s))"
proof (induction s arbitrary: st)
  case Nil
  then show ?case by (cases st) (simp_all add: maximal_runs_Nil)
next
  case (Cons r s)
  show ?case
  proof (cases st)
    case None
    then show ?thesis
      by (simp add: Cons.IH maximal_runs_sep maximal_runs_char)
  next
    case (Some w)
    then show ?thesis
      by (simp add: Cons.IH maximal_runs_sep)
  qed
qed

lemma FieldsFunc_runs: "FieldsFunc s f = maximal_runs f s"
  by (simp add: FieldsFunc_def FieldsFunc_loop_runs)

lemma maximal_runs_fields:
  "w \<in> set (maximal_runs d s) \<Longrightarrow> w \<noteq> [] \<and> (\<forall>r \<in> set w. \<not> d r)"
proof (induction d s rule: maximal_runs.induct)
  case (1 d s)
  define t where "t = dropWhile d s"
  show ?case
  proof (cases "t = []")
    case True
    with "1.prems" show ?thesis by (simp add: maximal_runs.simps [of d s] t_def)
  next
    case False
    then obtain a u where au: "t = a # u" by (cases t) auto
    then have "dropWhile d s = a # u" by (simp add: t_def)
    then have na: "\<not> d a" by (simp add: dropWhile_eq_Cons_conv)
    from "1.prems" False
    have "w = takeWhile (\<lambda>c. \<not> d c) t \<or> w \<in> set (maximal_runs d (dropWhile (\<lambda>c. \<not> d c) t))"
      by (simp add: maximal_runs.simps [of d s] t_def [symmetric])
    then show ?thesis
    proof
      assume w: "w = takeWhile (\<lambda>c. \<not> d c) t"
      have "w \<noteq> []" using w au na by simp
      moreover have "\<forall>r \<in> set w. \<not> d r" unfolding w by (auto dest: set_takeWhileD)
      ultimately show ?thesis by simp
    next
      assume "w \<in> set (maximal_runs d (dropWhile (\<lambda>c. \<not> d c) t))"
      with "1.IH" [OF t_def False] show ?thesis by simp
    qed
  qed
qed

lemma maximal_runs_concat: "concat (maximal_runs d s) = filter (\<lambda>r. \<not> d r) s"
proof (induction d s rule: maximal_runs.induct)
  case (1 d s)
  define t where "t = dropWhile d s"
  have s: "filter (\<lambda>r. \<not> d r) s = filter (\<lambda>r. \<not> d r) t"
  proof -
    have "filter (\<lambda>r. \<not> d r) (takeWhile d s @ dropWhile d s) = filter (\<lambda>r. \<not> d r) (dropWhile d s)"
      unfolding filter_append by (auto simp add: filter_empty_conv dest: set_takeWhileD)
    then show ?thesis by (simp add: t_def)
  qed
  show ?case
  proof (cases "t = []")
    case True
    then show ?thesis by (simp add: maximal_runs.simps [of d s] t_def [symmetric] s)
  next
    case False
    have "filter (\<lambda>r. \<not> d r) (takeWhile (\<lambda>c. \<not> d c) t @ dropWhile (\<lambda>c. \<not> d c) t) =
        takeWhile (\<lambda>c. \<not> d c) t @ filter (\<lambda>r. \<not> d r) (dropWhile (\<lambda>c. \<not> d c) t)"
      unfolding filter_append by (auto simp add: filter_id_conv dest: set_takeWhileD)
    then have "filter (\<lambda>r. \<not> d r) t =
        takeWhile (\<lambda>c. \<not> d c) t @ filter (\<lambda>r. \<not> d r) (dropWhile (\<lambda>c. \<not> d c) t)"
      by simp
    with "1.IH" [OF t_def False] False show ?thesis
      by (simp add: maximal_runs.simps [of d s] t_def [symmetric] s)
  qed
qed

lemma Set_nsqds:
  "Set L ''nsqds'' v c =
     (case split v of Inr s \<Rightarrow> c\<lparr>nsqds := s\<rparr>
      | Inl e \<Rightarrow> c\<lparr>err := Some (OptionError ''nsqds'' e)\<rparr>)"
  by (simp add: Set_def)

lemma Set_nsqlookupds:
  "Set L ''nsqlookupds'' v c =
     (case split v of Inr s \<Rightarrow> c\<lparr>nsqlookupds := s\<rparr>
      | Inl e \<Rightarrow> c\<lparr>err := Some (OptionError ''nsqlookupds'' e)\<rparr>)"
  by (simp add: Set_def)

lemma split_VString: "split (VString s) = Inr (maximal_runs is_separator s)"
  by (simp add: split_def FieldsFunc_runs)

lemma split_VStrings: "split (VStrings xs) = Inr xs"
  by (simp add: split_def)

lemma split_other:
  "\<not> is_VString v \<Longrightarrow> \<not> is_VStrings v \<Longrightarrow> split v = Inl ''expected string or slice of strings''"
  by (cases v) (simp_all add: split_def)

lemma split_example_1: "split (VString ''a,b c'') = Inr [''a'', ''b'', ''c'']"
  by (simp add: split_def FieldsFunc_def is_separator_def)

lemma split_example_2: "split (VString ''a,,  b'') = Inr [''a'', ''b'']"
  by (simp add: split_def FieldsFunc_def is_separator_def)

text \<open>
  C2. Under \<^verbatim>\<open>nsqds\<close> and \<^verbatim>\<open>nsqlookupds\<close> a string is stored as its maximal runs of
  characters that are neither comma nor space, so that no stored field is empty; a
  slice of strings is stored as it is; every other value leaves the list alone and
  records the error "expected string or slice of strings" for the key. The strings
  \<open>a,b c\<close> and \<open>a,,  b\<close> give \<open>[a, b, c]\<close> and \<open>[a, b]\<close>.
\<close>

theorem split_address_list:
  "split (VString s) = Inr (maximal_runs is_separator s) \<and>
   split (VStrings xs) = Inr xs \<and>
   (\<not> is_VString v \<and> \<not> is_VStrings v \<longrightarrow>
      split v = Inl ''expected string or slice of strings'') \<and>
   Set L ''nsqds'' (VString s) c = c\<lparr>nsqds := maximal_runs is_separator s\<rparr> \<and>
   Set L ''nsqds'' (VStrings xs) c = c\<lparr>nsqds := xs\<rparr> \<and>
   Set L ''nsqlookupds'' (VString s) c = c\<lparr>nsqlookupds := maximal_runs is_separator s\<rparr> \<and>
   Set L ''nsqlookupds'' (VStrings xs) c = c\<lparr>nsqlookupds := xs\<rparr> \<and>
   (\<not> is_VString v \<and> \<not> is_VStrings v \<longrightarrow>
      Set L ''nsqds'' v c =
        c\<lparr>err := Some (OptionError ''nsqds'' ''expected string or slice of strings'')\<rparr> \<and>
      Set L ''nsqlookupds'' v c =
        c\<lparr>err := Some (OptionError ''nsqlookupds'' ''expected string or slice of strings'')\<rparr>) \<and>
   split (VString ''a,b c'') = Inr [''a'', ''b'', ''c''] \<and>
   split (VString ''a,,  b'') = Inr [''a'', ''b''] \<and>
   (\<forall>w \<in> set (maximal_runs is_separator s). w \<noteq> [] \<and> (\<forall>r \<in> set w. \<not> is_separator r))"
proof -
  have fields:
    "\<forall>w \<in> set (maximal_runs is_separator s). w \<noteq> [] \<and> (\<forall>r \<in> set w. \<not> is_separator r)"
    using maximal_runs_fields [of _ is_separator s] by blast
  have nsqds_str: "Set L ''nsqds'' (VString s) c = c\<lparr>nsqds := maximal_runs is_separator s\<rparr>"
    by (simp add: Set_nsqds split_VString)
  have nsqds_list: "Set L ''nsqds'' (VStrings xs) c = c\<lparr>nsqds := xs\<rparr>"
    by (simp add: Set_nsqds split_VStrings)
  have lookupds_str:
    "Set L ''nsqlookupds'' (VString s) c = c\<lparr>nsqlookupds := maximal_runs is_separator s\<rparr>"
    by (simp add: Set_nsqlookupds split_VString)
  have lookupds_list: "Set L ''nsqlookupds'' (VStrings xs) c = c\<lparr>nsqlookupds := xs\<rparr>"
    by (simp add: Set_nsqlookupds split_VStrings)
  have other: "\<not> is_VString v \<and> \<not> is_VStrings v \<longrightarrow>
      Set L ''nsqds'' v c =
        c\<lparr>err := Some (OptionError ''nsqds'' ''expected string or slice of strings'')\<rparr> \<and>
      Set L ''nsqlookupds'' v c =
        c\<lparr>err := Some (OptionError ''nsqlookupds'' ''expected string or slice of strings'')\<rparr>"
    by (simp add: Set_nsqds Set_nsqlookupds split_other)
  have shape: "\<not> is_VString v \<and> \<not> is_VStrings v \<longrightarrow>
      split v = Inl ''expected string or slice of strings''"
    by (simp add: split_other)
  show ?thesis
    using split_VString [of s] split_VStrings [of xs] shape nsqds_str nsqds_list
      lookupds_str lookupds_list other split_example_1 split_example_2 fields
    by blast
qed

theorem split_address_list_witness:
  "\<not> is_VString (VInt 5) \<and> \<not> is_VStrings (VInt 5) \<and>
   split (VInt 5) = Inl ''expected string or slice of strings'' \<and>
   nsqds (Set fake_nsq ''nsqds'' (VString '' h1:4150, h2:4150,'') (NewConsumer fake_nsq ''orders'' ''workers''))
     = [''h1:4150'', ''h2:4150''] \<and>
   nsqlookupds (Set fake_nsq ''nsqlookupds'' (VStrings [''a b'', '''', ''a b'']) (NewConsumer fake_nsq ''orders'' ''workers''))
     = [''a b'', '''', ''a b''] \<and>
   err (Set fake_nsq ''nsqds'' (VInt 5) (NewConsumer fake_nsq ''orders'' ''workers''))
     = Some (OptionError ''nsqds'' ''expected string or slice of strings'') \<and>
   nsqds (Set fake_nsq ''nsqds'' (VInt 5) (NewConsumer fake_nsq ''orders'' ''workers'')) = []"
proof -
  have h: "\<not> is_VString (VInt 5) \<and> \<not> is_VStrings (VInt 5)" by simp
  have runs: "maximal_runs is_separator '' h1:4150, h2:4150,'' = [''h1:4150'', ''h2:4150'']"
    by (simp add: FieldsFunc_runs [symmetric] FieldsFunc_def is_separator_def)
  show ?thesis
    using h runs
      split_address_list [of "'' h1:4150, h2:4150,''" "[''a b'', '''', ''a b'']" "VInt 5" fake_nsq
        "NewConsumer fake_nsq ''orders'' ''workers''"]
    by (simp add: NewConsumer_def)
qed

section \<open>Start\<close>

lemma Start_deferred: "err c = Some e \<Longrightarrow> Start L h c w = (Return (Some e), c, w, [])"
  by (simp add: Start_def)

lemma Start_construction_fails:
  "err c = None \<Longrightarrow> nsq_NewConsumer L (topic c) (channel c) (config c) w = (Inl e, w1) \<Longrightarrow>
   Start L h c w = (Return (Some (NsqError e)), c, w1, [CallNewConsumer (topic c) (channel c)])"
  by (simp add: Start_def)

lemma Start_constructed:
  "err c = None \<Longrightarrow> nsq_NewConsumer L (topic c) (channel c) (config c) w = (Inr p, w1) \<Longrightarrow>
   Start L h c w =
     (case connect L (c\<lparr>client := Some p\<rparr>) (after_construction L h c p w1) of
        (r, w4, t) \<Rightarrow> (r, c\<lparr>client := Some p\<rparr>, w4, setup_calls h c @ t))"
  by (simp add: Start_def after_construction_def setup_calls_def Let_def)

lemma connect_no_address:
  "nsqds c = [] \<Longrightarrow> nsqlookupds c = [] \<Longrightarrow> connect L c w = (Return (Some MissingAddress), w, [])"
  by (simp add: connect_def)

lemma connect_direct_fails:
  "nsqds c \<noteq> [] \<Longrightarrow> client c = Some p \<Longrightarrow> ConnectToNSQDs L p (nsqds c) w = (Some e, w') \<Longrightarrow>
   connect L c w = (Return (Some (NsqError e)), w', [CallConnectToNSQDs (nsqds c)])"
  by (simp add: connect_def)

lemma connect_direct_then_discovery:
  "nsqds c \<noteq> [] \<Longrightarrow> nsqlookupds c \<noteq> [] \<Longrightarrow> client c = Some p \<Longrightarrow>
   ConnectToNSQDs L p (nsqds c) w = (None, w') \<Longrightarrow>
   connect L c w =
     (Return (map_option NsqError (fst (ConnectToNSQLookupds L p (nsqlookupds c) w'))),
      snd (ConnectToNSQLookupds L p (nsqlookupds c) w'),
      [CallConnectToNSQDs (nsqds c), CallConnectToNSQLookupds (nsqlookupds c)])"
  by (cases "ConnectToNSQLookupds L p (nsqlookupds c) w'")
     (auto simp add: connect_def split: option.splits)

text \<open>
  \<^verbatim>\<open>Start\<close> always returns: it reaches \<^verbatim>\<open>connect\<close> only after it has stored the new
  client, so the nil dereference of \<^verbatim>\<open>connect\<close> cannot happen there.
\<close>

lemma connect_returns: "client c \<noteq> None \<Longrightarrow> fst (connect L c w) \<noteq> Panic"
  by (auto simp add: connect_def split: option.splits prod.splits outcome.splits)

lemma Start_returns: "returned (Start L h c w) \<noteq> Panic"
proof (cases "err c")
  case (Some e)
  then show ?thesis by (simp add: Start_deferred returned_def)
next
  case None
  obtain r w1 where n: "nsq_NewConsumer L (topic c) (channel c) (config c) w = (r, w1)"
    by (cases "nsq_NewConsumer L (topic c) (channel c) (config c) w")
  show ?thesis
  proof (cases r)
    case (Inl e)
    with None n show ?thesis by (simp add: Start_construction_fails returned_def)
  next
    case (Inr p)
    have "fst (connect L (c\<lparr>client := Some p\<rparr>) (after_construction L h c p w1)) \<noteq> Panic"
      by (rule connect_returns) simp
    with None n Inr show ?thesis
      by (cases "connect L (c\<lparr>client := Some p\<rparr>) (after_construction L h c p w1)")
         (simp add: Start_constructed returned_def)
  qed
qed

text \<open>
  C6. When the error field is set, \<^verbatim>\<open>Start\<close> returns that error at once: nothing is
  constructed, no logger is attached, no handler is registered, no connection is tried
  (the library is not called at all), and the builder and the world stay as they were.
\<close>
theorem Start_reports_deferred_error:
  "err c = Some e \<Longrightarrow>
   returned (Start L h c w) = Return (Some e) \<and>
   calls_made (Start L h c w) = [] \<and>
   Start L h c w = (Return (Some e), c, w, [])"
  by (simp add: Start_deferred returned_def calls_made_def)

theorem Start_reports_deferred_error_witness:
  "err (Set fake_nsq ''concurrency'' (VString ''4'') (NewConsumer fake_nsq ''orders'' ''workers''))
     = Some (OptionError ''concurrency'' ''expected integer'') \<and>
   returned (Start fake_nsq 7 (Set fake_nsq ''concurrency'' (VString ''4'') (NewConsumer fake_nsq ''orders'' ''workers'')) 0)
     = Return (Some (OptionError ''concurrency'' ''expected integer'')) \<and>
   calls_made (Start fake_nsq 7 (Set fake_nsq ''concurrency'' (VString ''4'') (NewConsumer fake_nsq ''orders'' ''workers'')) 0)
     = [] \<and>
   client (consumer_after (Start fake_nsq 7 (Set fake_nsq ''concurrency'' (VString ''4'') (NewConsumer fake_nsq ''orders'' ''workers'')) 0))
     = None"
proof -
  have h: "err (Set fake_nsq ''concurrency'' (VString ''4'') (NewConsumer fake_nsq ''orders'' ''workers''))
     = Some (OptionError ''concurrency'' ''expected integer'')"
    by (simp add: Set_def NewConsumer_def)
  have cl: "client (Set fake_nsq ''concurrency'' (VString ''4'') (NewConsumer fake_nsq ''orders'' ''workers'')) = None"
    by (simp add: Set_def NewConsumer_def)
  show ?thesis
    using h cl Start_reports_deferred_error [OF h, of fake_nsq 7 0]
    by (simp add: consumer_after_def returned_def calls_made_def)
qed

text \<open>
  C4. With no deferred error and a client constructed, empty \<^verbatim>\<open>nsqds\<close> and
  \<^verbatim>\<open>nsqlookupds\<close> make \<^verbatim>\<open>Start\<close> return the missing-address error, and the calls made are
  the construction, the logger and the handlers only: no connection call.
\<close>
theorem Start_without_addresses:
  "err c = None \<Longrightarrow>
   nsq_NewConsumer L (topic c) (channel c) (config c) w = (Inr p, w1) \<Longrightarrow>
   nsqds c = [] \<Longrightarrow> nsqlookupds c = [] \<Longrightarrow>
   returned (Start L h c w) = Return (Some MissingAddress) \<and>
   calls_made (Start L h c w) = setup_calls h c \<and>
   filter is_connect (calls_made (Start L h c w)) = []"
  by (simp add: Start_constructed connect_no_address returned_def calls_made_def
        setup_calls_def is_connect_def)

theorem Start_without_addresses_witness:
  "err (NewConsumer fake_nsq ''orders'' ''workers'') = None \<and>
   nsq_NewConsumer fake_nsq ''orders'' ''workers'' [] 0 = (Inr 0, 1) \<and>
   nsqds (NewConsumer fake_nsq ''orders'' ''workers'') = [] \<and>
   nsqlookupds (NewConsumer fake_nsq ''orders'' ''workers'') = [] \<and>
   returned (Start fake_nsq 7 (NewConsumer fake_nsq ''orders'' ''workers'') 0)
     = Return (Some MissingAddress) \<and>
   calls_made (Start fake_nsq 7 (NewConsumer fake_nsq ''orders'' ''workers'') 0)
     = [CallNewConsumer ''orders'' ''workers'', CallSetLogger StderrLogger LogLevelInfo,
        CallAddConcurrentHandlers 7 1]"
proof -
  let ?c = "NewConsumer fake_nsq ''orders'' ''workers'' :: (string \<times> val) list Consumer"
  have e: "err ?c = None" by (simp add: NewConsumer_def)
  have n: "nsq_NewConsumer fake_nsq (topic ?c) (channel ?c) (config ?c) 0 = (Inr 0, 1)"
    by (simp add: NewConsumer_def fake_nsq_def)
  have a: "nsqds ?c = []" by (simp add: NewConsumer_def)
  have b: "nsqlookupds ?c = []" by (simp add: NewConsumer_def)
  show ?thesis
    using e n a b Start_without_addresses [OF e n a b, of 7]
    by (simp add: setup_calls_def NewConsumer_def fake_nsq_def)
qed

text \<open>
  C5. With a non-empty \<^verbatim>\<open>nsqds\<close>, the direct phase comes first. If it fails, \<^verbatim>\<open>Start\<close>
  returns its error and the last call made is the direct one: the discovery phase is
  not tried, whatever \<^verbatim>\<open>nsqlookupds\<close> holds. If it succeeds and \<^verbatim>\<open>nsqlookupds\<close> is
  non-empty, the discovery call follows it, on the world the direct phase left.
\<close>
theorem Start_direct_phase_first:
  assumes "err c = None"
    and "nsq_NewConsumer L (topic c) (channel c) (config c) w = (Inr p, w1)"
    and "nsqds c \<noteq> []"
  shows
    "(ConnectToNSQDs L p (nsqds c) (after_construction L h c p w1) = (Some e, w2) \<longrightarrow>
        returned (Start L h c w) = Return (Some (NsqError e)) \<and>
        calls_made (Start L h c w) = setup_calls h c @ [CallConnectToNSQDs (nsqds c)] \<and>
        CallConnectToNSQLookupds (nsqlookupds c) \<notin> set (calls_made (Start L h c w))) \<and>
     (ConnectToNSQDs L p (nsqds c) (after_construction L h c p w1) = (None, w2) \<and>
      nsqlookupds c \<noteq> [] \<longrightarrow>
        returned (Start L h c w) =
          Return (map_option NsqError (fst (ConnectToNSQLookupds L p (nsqlookupds c) w2))) \<and>
        calls_made (Start L h c w) =
          setup_calls h c @
          [CallConnectToNSQDs (nsqds c), CallConnectToNSQLookupds (nsqlookupds c)])"
proof (intro conjI impI)
  assume d: "ConnectToNSQDs L p (nsqds c) (after_construction L h c p w1) = (Some e, w2)"
  have k: "connect L (c\<lparr>client := Some p\<rparr>) (after_construction L h c p w1) =
      (Return (Some (NsqError e)), w2, [CallConnectToNSQDs (nsqds c)])"
    using connect_direct_fails [of "c\<lparr>client := Some p\<rparr>" p L "after_construction L h c p w1" e w2]
      assms(3) d by simp
  show "returned (Start L h c w) = Return (Some (NsqError e))"
    by (simp add: Start_constructed [OF assms(1,2)] k returned_def)
  show t: "calls_made (Start L h c w) = setup_calls h c @ [CallConnectToNSQDs (nsqds c)]"
    by (simp add: Start_constructed [OF assms(1,2)] k calls_made_def)
  show "CallConnectToNSQLookupds (nsqlookupds c) \<notin> set (calls_made (Start L h c w))"
    by (simp add: t setup_calls_def)
next
  assume d: "ConnectToNSQDs L p (nsqds c) (after_construction L h c p w1) = (None, w2) \<and>
      nsqlookupds c \<noteq> []"
  have k: "connect L (c\<lparr>client := Some p\<rparr>) (after_construction L h c p w1) =
      (Return (map_option NsqError (fst (ConnectToNSQLookupds L p (nsqlookupds c) w2))),
       snd (ConnectToNSQLookupds L p (nsqlookupds c) w2),
       [CallConnectToNSQDs (nsqds c), CallConnectToNSQLookupds (nsqlookupds c)])"
    using connect_direct_then_discovery
        [of "c\<lparr>client := Some p\<rparr>" p L "after_construction L h c p w1" w2]
      assms(3) d by simp
  show "returned (Start L h c w) =
      Return (map_option NsqError (fst (ConnectToNSQLookupds L p (nsqlookupds c) w2)))"
    by (simp add: Start_constructed [OF assms(1,2)] k returned_def)
  show "calls_made (Start L h c w) =
      setup_calls h c @ [CallConnectToNSQDs (nsqds c), CallConnectToNSQLookupds (nsqlookupds c)]"
    by (simp add: Start_constructed [OF assms(1,2)] k calls_made_def)
qed

lemma both_lists_eval:
  "both_lists direct =
     \<lparr> client = None, config = [], nsqds = FieldsFunc direct is_separator,
       nsqlookupds = [''lookup:4161''], concurrency = 1, channel = ''workers'',
       topic = ''orders'', level = LogLevelInfo, log = StderrLogger, err = None \<rparr>"
  by (simp add: both_lists_def Set_def split_def NewConsumer_def fake_nsq_def)

theorem Start_direct_phase_first_witness:
  "returned (Start fake_nsq 7 (both_lists ''a:4150,x:4150'') 0)
     = Return (Some (NsqError ''connection refused'')) \<and>
   calls_made (Start fake_nsq 7 (both_lists ''a:4150,x:4150'') 0)
     = [CallNewConsumer ''orders'' ''workers'', CallSetLogger StderrLogger LogLevelInfo,
        CallAddConcurrentHandlers 7 1, CallConnectToNSQDs [''a:4150'', ''x:4150'']] \<and>
   returned (Start fake_nsq 7 (both_lists ''a:4150'') 0) = Return None \<and>
   calls_made (Start fake_nsq 7 (both_lists ''a:4150'') 0)
     = [CallNewConsumer ''orders'' ''workers'', CallSetLogger StderrLogger LogLevelInfo,
        CallAddConcurrentHandlers 7 1, CallConnectToNSQDs [''a:4150''],
        CallConnectToNSQLookupds [''lookup:4161'']]"
proof -
  let ?bad = "both_lists ''a:4150,x:4150''" and ?good = "both_lists ''a:4150''"
  have bad: "?bad = \<lparr> client = None, config = [], nsqds = [''a:4150'', ''x:4150''],
       nsqlookupds = [''lookup:4161''], concurrency = 1, channel = ''workers'',
       topic = ''orders'', level = LogLevelInfo, log = StderrLogger, err = None \<rparr>"
    by (simp add: both_lists_eval FieldsFunc_def is_separator_def)
  have good: "?good = \<lparr> client = None, config = [], nsqds = [''a:4150''],
       nsqlookupds = [''lookup:4161''], concurrency = 1, channel = ''workers'',
       topic = ''orders'', level = LogLevelInfo, log = StderrLogger, err = None \<rparr>"
    by (simp add: both_lists_eval FieldsFunc_def is_separator_def)
  have b1: "err ?bad = None" by (simp add: bad)
  have b2: "nsq_NewConsumer fake_nsq (topic ?bad) (channel ?bad) (config ?bad) 0 = (Inr 0, 1)"
    by (simp add: bad fake_nsq_def)
  have b3: "nsqds ?bad \<noteq> []" by (simp add: bad)
  have b4: "ConnectToNSQDs fake_nsq 0 (nsqds ?bad) (after_construction fake_nsq 7 ?bad 0 1)
      = (Some ''connection refused'', 1)"
    by (simp add: bad fake_nsq_def after_construction_def)
  have g1: "err ?good = None" by (simp add: good)
  have g2: "nsq_NewConsumer fake_nsq (topic ?good) (channel ?good) (config ?good) 0 = (Inr 0, 1)"
    by (simp add: good fake_nsq_def)
  have g3: "nsqds ?good \<noteq> []" by (simp add: good)
  have g4: "ConnectToNSQDs fake_nsq 0 (nsqds ?good) (after_construction fake_nsq 7 ?good 0 1)
      = (None, 1) \<and> nsqlookupds ?good \<noteq> []"
    by (simp add: good fake_nsq_def after_construction_def)
  have g5: "ConnectToNSQLookupds fake_nsq 0 (nsqlookupds ?good) 1 = (None, 1)"
    by (simp add: good fake_nsq_def)
  from Start_direct_phase_first [OF b1 b2 b3, of 7 "''connection refused''" 1] b4
  have rb: "returned (Start fake_nsq 7 ?bad 0) = Return (Some (NsqError ''connection refused''))"
    and cb: "calls_made (Start fake_nsq 7 ?bad 0) = setup_calls 7 ?bad @ [CallConnectToNSQDs (nsqds ?bad)]"
    by blast+
  from Start_direct_phase_first [OF g1 g2 g3, of 7 "''connection refused''" 1] g4
  have rg: "returned (Start fake_nsq 7 ?good 0) =
        Return (map_option NsqError (fst (ConnectToNSQLookupds fake_nsq 0 (nsqlookupds ?good) 1)))"
    and cg: "calls_made (Start fake_nsq 7 ?good 0) = setup_calls 7 ?good @
        [CallConnectToNSQDs (nsqds ?good), CallConnectToNSQLookupds (nsqlookupds ?good)]"
    by blast+
  have "returned (Start fake_nsq 7 ?bad 0) = Return (Some (NsqError ''connection refused''))"
    by (rule rb)
  moreover have "calls_made (Start fake_nsq 7 ?bad 0)
     = [CallNewConsumer ''orders'' ''workers'', CallSetLogger StderrLogger LogLevelInfo,
        CallAddConcurrentHandlers 7 1, CallConnectToNSQDs [''a:4150'', ''x:4150'']]"
    unfolding cb by (simp add: bad setup_calls_def)
  moreover have "returned (Start fake_nsq 7 ?good 0) = Return None"
    unfolding rg g5 by simp
  moreover have "calls_made (Start fake_nsq 7 ?good 0)
     = [CallNewConsumer ''orders'' ''workers'', CallSetLogger StderrLogger LogLevelInfo,
        CallAddConcurrentHandlers 7 1, CallConnectToNSQDs [''a:4150''],
        CallConnectToNSQLookupds [''lookup:4161'']]"
    unfolding cg by (simp add: good setup_calls_def)
  ultimately show ?thesis by blast
qed

text \<open>
  C9. \<^verbatim>\<open>Start\<close> writes no field of the builder but \<^verbatim>\<open>client\<close>, and it writes \<^verbatim>\<open>client\<close>
  exactly when there is no deferred error and the library's constructor succeeds,
  whatever the connection phases do afterwards. The constructor is given the
  configuration and not the builder, so the \<^verbatim>\<open>config\<close> field is the same after it.
\<close>
theorem Start_frame:
  "consumer_after (Start L h c w) =
     (case err c of
        Some e \<Rightarrow> c
      | None \<Rightarrow>
          (case fst (nsq_NewConsumer L (topic c) (channel c) (config c) w) of
             Inl e \<Rightarrow> c
           | Inr p \<Rightarrow> c\<lparr>client := Some p\<rparr>)) \<and>
   (consumer_after (Start L h c w))\<lparr>client := client c\<rparr> = c"
proof (cases "err c")
  case (Some e)
  then show ?thesis by (simp add: Start_deferred consumer_after_def)
next
  case None
  obtain r w1 where n: "nsq_NewConsumer L (topic c) (channel c) (config c) w = (r, w1)"
    by (cases "nsq_NewConsumer L (topic c) (channel c) (config c) w")
  show ?thesis
  proof (cases r)
    case (Inl e)
    with None n show ?thesis by (simp add: Start_construction_fails consumer_after_def)
  next
    case (Inr p)
    with None n show ?thesis
      by (cases "connect L (c\<lparr>client := Some p\<rparr>) (after_construction L h c p w1)")
         (simp add: Start_constructed consumer_after_def)
  qed
qed

theorem Start_frame_witness:
  "consumer_after (Start fake_nsq 7 (both_lists ''x:4150'') 0)
     = (both_lists ''x:4150'')\<lparr>client := Some 0\<rparr> \<and>
   returned (Start fake_nsq 7 (both_lists ''x:4150'') 0) \<noteq> Return None \<and>
   consumer_after (Start fake_nsq 7 (Set fake_nsq ''topic'' (VString '''') (both_lists ''a:4150'')) 0)
     = Set fake_nsq ''topic'' (VString '''') (both_lists ''a:4150'')"
proof -
  let ?c = "both_lists ''x:4150''"
  let ?d = "Set fake_nsq ''topic'' (VString '''') (both_lists ''a:4150'')"
  have c: "?c = \<lparr> client = None, config = [], nsqds = [''x:4150''],
       nsqlookupds = [''lookup:4161''], concurrency = 1, channel = ''workers'',
       topic = ''orders'', level = LogLevelInfo, log = StderrLogger, err = None \<rparr>"
    by (simp add: both_lists_eval FieldsFunc_def is_separator_def)
  have d: "?d = \<lparr> client = None, config = [], nsqds = [''a:4150''],
       nsqlookupds = [''lookup:4161''], concurrency = 1, channel = ''workers'',
       topic = '''', level = LogLevelInfo, log = StderrLogger, err = None \<rparr>"
    by (simp add: both_lists_eval FieldsFunc_def is_separator_def Set_def)
  have r: "returned (Start fake_nsq 7 ?c 0) \<noteq> Return None"
    by (simp add: c Start_def connect_def fake_nsq_def returned_def)
  have ce: "err ?c = None" by (simp add: c)
  have cn: "nsq_NewConsumer fake_nsq (topic ?c) (channel ?c) (config ?c) 0 = (Inr 0, 1)"
    unfolding c by (simp add: fake_nsq_def)
  have de: "err ?d = None" by (simp add: d)
  have dn: "nsq_NewConsumer fake_nsq (topic ?d) (channel ?d) (config ?d) 0
      = (Inl ''invalid topic name'', 0)"
    unfolding d by (simp add: fake_nsq_def)
  have 1: "consumer_after (Start fake_nsq 7 ?c 0) = ?c\<lparr>client := Some 0\<rparr>"
    using Start_frame [of fake_nsq 7 ?c 0] by (simp add: ce cn)
  have 2: "consumer_after (Start fake_nsq 7 ?d 0) = ?d"
    using Start_frame [of fake_nsq 7 ?d 0] by (simp add: de dn)
  from 1 r 2 show ?thesis by blast
qed

section \<open>Options\<close>

lemma FieldsFunc_loop_all_separators:
  "\<forall>r \<in> set s. f r \<Longrightarrow> FieldsFunc_loop f None s = []"
  by (induction s) simp_all

lemma split_only_separators: "only_separators s \<Longrightarrow> split (VString s) = Inr []"
  by (simp add: split_def FieldsFunc_def only_separators_def is_separator_def
        FieldsFunc_loop_all_separators)

text \<open>
  C10. A string of commas and spaces only (the empty string too) under \<^verbatim>\<open>nsqds\<close> records
  no error and sets \<^verbatim>\<open>nsqds\<close> to the empty list, whatever it held; likewise for
  \<^verbatim>\<open>nsqlookupds\<close>. If the other list is empty as well, a \<^verbatim>\<open>Start\<close> that gets its client
  then returns the missing-address error.
\<close>
theorem separators_only_clear_the_list:
  assumes "only_separators s"
  shows
    "Set L ''nsqds'' (VString s) c = c\<lparr>nsqds := []\<rparr> \<and>
     Set L ''nsqlookupds'' (VString s) c = c\<lparr>nsqlookupds := []\<rparr> \<and>
     (err c = None \<and> nsqlookupds c = [] \<and>
      nsq_NewConsumer L (topic c) (channel c) (config c) w = (Inr p, w1) \<longrightarrow>
        returned (Start L h (Set L ''nsqds'' (VString s) c) w) = Return (Some MissingAddress)) \<and>
     (err c = None \<and> nsqds c = [] \<and>
      nsq_NewConsumer L (topic c) (channel c) (config c) w = (Inr p, w1) \<longrightarrow>
        returned (Start L h (Set L ''nsqlookupds'' (VString s) c) w) = Return (Some MissingAddress))"
proof -
  have a: "Set L ''nsqds'' (VString s) c = c\<lparr>nsqds := []\<rparr>"
    by (simp add: Set_nsqds split_only_separators [OF assms])
  have b: "Set L ''nsqlookupds'' (VString s) c = c\<lparr>nsqlookupds := []\<rparr>"
    by (simp add: Set_nsqlookupds split_only_separators [OF assms])
  have sa: "err c = None \<and> nsqlookupds c = [] \<and>
      nsq_NewConsumer L (topic c) (channel c) (config c) w = (Inr p, w1) \<longrightarrow>
        returned (Start L h (c\<lparr>nsqds := []\<rparr>) w) = Return (Some MissingAddress)"
    using Start_constructed [of "c\<lparr>nsqds := []\<rparr>" L w p w1 h]
    by (simp add: connect_no_address returned_def)
  have sb: "err c = None \<and> nsqds c = [] \<and>
      nsq_NewConsumer L (topic c) (channel c) (config c) w = (Inr p, w1) \<longrightarrow>
        returned (Start L h (c\<lparr>nsqlookupds := []\<rparr>) w) = Return (Some MissingAddress)"
    using Start_constructed [of "c\<lparr>nsqlookupds := []\<rparr>" L w p w1 h]
    by (simp add: connect_no_address returned_def)
  show ?thesis using sa sb unfolding a b by blast
qed

theorem separators_only_clear_the_list_witness:
  "only_separators '', ,'' \<and>
   nsqds (Set fake_nsq ''nsqd'' (VString ''a:4150'') (NewConsumer fake_nsq ''orders'' ''workers''))
     = [''a:4150''] \<and>
   nsqds (Set fake_nsq ''nsqds'' (VString '', ,'')
       (Set fake_nsq ''nsqd'' (VString ''a:4150'') (NewConsumer fake_nsq ''orders'' ''workers''))) = [] \<and>
   err (Set fake_nsq ''nsqds'' (VString '', ,'')
       (Set fake_nsq ''nsqd'' (VString ''a:4150'') (NewConsumer fake_nsq ''orders'' ''workers''))) = None \<and>
   returned (Start fake_nsq 7 (Set fake_nsq ''nsqds'' (VString '', ,'')
       (Set fake_nsq ''nsqd'' (VString ''a:4150'') (NewConsumer fake_nsq ''orders'' ''workers''))) 0)
     = Return (Some MissingAddress)"
proof -
  let ?c = "Set fake_nsq ''nsqd'' (VString ''a:4150'') (NewConsumer fake_nsq ''orders'' ''workers'')"
  have c: "?c = \<lparr> client = None, config = [], nsqds = [''a:4150''],
       nsqlookupds = [], concurrency = 1, channel = ''workers'',
       topic = ''orders'', level = LogLevelInfo, log = StderrLogger, err = None \<rparr>"
    by (simp add: Set_def NewConsumer_def fake_nsq_def)
  have h: "only_separators '', ,''" by (simp add: only_separators_def)
  have k: "err ?c = None \<and> nsqlookupds ?c = [] \<and>
      nsq_NewConsumer fake_nsq (topic ?c) (channel ?c) (config ?c) 0 = (Inr 0, 1)"
    unfolding c by (simp add: fake_nsq_def)
  have n: "nsqds ?c = [''a:4150'']" unfolding c by simp
  from separators_only_clear_the_list [OF h, of fake_nsq ?c 0 0 1 7] k
  have s: "Set fake_nsq ''nsqds'' (VString '', ,'') ?c = ?c\<lparr>nsqds := []\<rparr>"
    and r: "returned (Start fake_nsq 7 (Set fake_nsq ''nsqds'' (VString '', ,'') ?c) 0)
        = Return (Some MissingAddress)"
    by blast+
  have e: "err (Set fake_nsq ''nsqds'' (VString '', ,'') ?c) = None"
    unfolding s using k by simp
  have m: "nsqds (Set fake_nsq ''nsqds'' (VString '', ,'') ?c) = []"
    unfolding s by simp
  from h n m e r show ?thesis by blast
qed

text \<open>
  C7. Of two well-typed calls for the same address option the later one decides the
  list: \<^verbatim>\<open>nsqd\<close> with \<open>x\<close> and then with \<open>y\<close> leaves \<open>[y]\<close>, and so for \<^verbatim>\<open>nsqlookupd\<close>,
  \<^verbatim>\<open>nsqds\<close> and \<^verbatim>\<open>nsqlookupds\<close> on their lists.
\<close>
theorem later_address_option_overwrites:
  "nsqds (Set L ''nsqd'' (VString y) (Set L ''nsqd'' (VString x) c)) = [y] \<and>
   nsqlookupds (Set L ''nsqlookupd'' (VString y) (Set L ''nsqlookupd'' (VString x) c)) = [y] \<and>
   (split x' = Inr xs \<and> split y' = Inr ys \<longrightarrow>
      nsqds (Set L ''nsqds'' y' (Set L ''nsqds'' x' c)) = ys \<and>
      nsqlookupds (Set L ''nsqlookupds'' y' (Set L ''nsqlookupds'' x' c)) = ys)"
  by (simp add: Set_nsqds Set_nsqlookupds) (simp add: Set_def)

theorem later_address_option_overwrites_witness:
  "split (VString ''a b'') = Inr [''a'', ''b''] \<and> split (VStrings [''c'']) = Inr [''c''] \<and>
   nsqds (Set fake_nsq ''nsqds'' (VStrings [''c''])
      (Set fake_nsq ''nsqds'' (VString ''a b'') (NewConsumer fake_nsq ''orders'' ''workers''))) = [''c''] \<and>
   nsqlookupds (Set fake_nsq ''nsqlookupds'' (VStrings [''c''])
      (Set fake_nsq ''nsqlookupds'' (VString ''a b'') (NewConsumer fake_nsq ''orders'' ''workers''))) = [''c''] \<and>
   nsqds (Set fake_nsq ''nsqd'' (VString ''y'')
      (Set fake_nsq ''nsqd'' (VString ''x'') (NewConsumer fake_nsq ''orders'' ''workers''))) = [''y'']"
proof -
  have h: "split (VString ''a b'') = Inr [''a'', ''b''] \<and> split (VStrings [''c'']) = Inr [''c'']"
    by (simp add: split_def FieldsFunc_def is_separator_def)
  note t = later_address_option_overwrites
      [of fake_nsq "''y''" "''x''" "NewConsumer fake_nsq ''orders'' ''workers''"
        "VString ''a b''" "[''a'', ''b'']" "VStrings [''c'']" "[''c'']"]
  have a: "nsqds (Set fake_nsq ''nsqd'' (VString ''y'')
      (Set fake_nsq ''nsqd'' (VString ''x'') (NewConsumer fake_nsq ''orders'' ''workers''))) = [''y'']"
    by (rule t [THEN conjunct1])
  have b: "nsqds (Set fake_nsq ''nsqds'' (VStrings [''c''])
      (Set fake_nsq ''nsqds'' (VString ''a b'') (NewConsumer fake_nsq ''orders'' ''workers''))) = [''c''] \<and>
    nsqlookupds (Set fake_nsq ''nsqlookupds'' (VStrings [''c''])
      (Set fake_nsq ''nsqlookupds'' (VString ''a b'') (NewConsumer fake_nsq ''orders'' ''workers''))) = [''c'']"
    by (rule t [THEN conjunct2, THEN conjunct2, THEN mp, OF h])
  show ?thesis
    by (intro conjI h [THEN conjunct1] h [THEN conjunct2] b [THEN conjunct1] b [THEN conjunct2] a)
qed

text \<open>
  C3. For a recognized key and a value of the wrong shape, \<^verbatim>\<open>Set\<close> changes nothing but
  the error field, where it records the error naming the key and the expected type;
  \<^verbatim>\<open>Set\<close> itself has no error result. \<^verbatim>\<open>Start\<close> then returns that error and does nothing
  else.
\<close>
theorem wrong_type_is_deferred:
  assumes "recognized k" and "\<not> shape_ok k v"
  shows
    "Set L k v c = c\<lparr>err := Some (OptionError k (expected_text k))\<rparr> \<and>
     Start L h (Set L k v c) w =
       (Return (Some (OptionError k (expected_text k))), Set L k v c, w, [])"
proof -
  have s: "Set L k v c = c\<lparr>err := Some (OptionError k (expected_text k))\<rparr>"
  proof -
    from assms(1) have "k = ''topic'' \<or> k = ''channel'' \<or> k = ''concurrency'' \<or> k = ''nsqd'' \<or>
        k = ''nsqlookupd'' \<or> k = ''nsqds'' \<or> k = ''nsqlookupds''"
      by (simp add: recognized_def)
    with assms(2) show ?thesis
      by (elim disjE; cases v; simp add: Set_def split_def shape_ok_def expected_text_def)
  qed
  have "err (Set L k v c) = Some (OptionError k (expected_text k))"
    by (simp add: s)
  from Start_deferred [OF this] s show ?thesis by simp
qed

theorem wrong_type_is_deferred_witness:
  "recognized ''nsqd'' \<and> \<not> shape_ok ''nsqd'' (VStrings [''a:4150'']) \<and>
   Set fake_nsq ''nsqd'' (VStrings [''a:4150'']) (NewConsumer fake_nsq ''orders'' ''workers'')
     = (NewConsumer fake_nsq ''orders'' ''workers'')
         \<lparr>err := Some (OptionError ''nsqd'' ''expected string'')\<rparr> \<and>
   returned (Start fake_nsq 7
       (Set fake_nsq ''nsqd'' (VStrings [''a:4150'']) (NewConsumer fake_nsq ''orders'' ''workers'')) 0)
     = Return (Some (OptionError ''nsqd'' ''expected string''))"
proof -
  have r: "recognized ''nsqd''" by (simp add: recognized_def)
  have n: "\<not> shape_ok ''nsqd'' (VStrings [''a:4150''])" by (simp add: shape_ok_def)
  have t: "expected_text ''nsqd'' = ''expected string''" by (simp add: expected_text_def)
  note d = wrong_type_is_deferred [OF r n, of fake_nsq "NewConsumer fake_nsq ''orders'' ''workers''" 7 0]
  have a: "Set fake_nsq ''nsqd'' (VStrings [''a:4150'']) (NewConsumer fake_nsq ''orders'' ''workers'')
     = (NewConsumer fake_nsq ''orders'' ''workers'')
         \<lparr>err := Some (OptionError ''nsqd'' ''expected string'')\<rparr>"
    using d [THEN conjunct1] by (simp only: t)
  have b: "returned (Start fake_nsq 7
       (Set fake_nsq ''nsqd'' (VStrings [''a:4150'']) (NewConsumer fake_nsq ''orders'' ''workers'')) 0)
     = Return (Some (OptionError ''nsqd'' ''expected string''))"
    by (simp only: d [THEN conjunct2] t returned_def fst_conv)
  show ?thesis by (intro conjI r n a b)
qed

section \<open>The deferred error\<close>

lemma err_Set:
  "err (Set L k v c) =
     (case err (Set L k v (c\<lparr>err := None\<rparr>)) of None \<Rightarrow> err c | Some e \<Rightarrow> Some e)"
  by (simp add: Set_def split: val.split sum.split prod.split option.split)

lemma err_Set_stays: "err c \<noteq> None \<Longrightarrow> err (Set L k v c) \<noteq> None"
  by (simp add: err_Set [of L k v c] split: option.split)

lemma err_SetMap_stays: "err c \<noteq> None \<Longrightarrow> err (SetMap L options c) \<noteq> None"
  unfolding SetMap_def
proof (induction options arbitrary: c)
  case Nil
  then show ?case by simp
next
  case (Cons kv options)
  obtain k v where kv: "kv = (k, v)" by (cases kv)
  have "err (Set L k v c) \<noteq> None" using Cons.prems by (rule err_Set_stays)
  then show ?case using Cons.IH [of "Set L k v c"] by (simp add: kv)
qed

lemma err_apply_step_stays: "err c \<noteq> None \<Longrightarrow> err (apply_step L st c) \<noteq> None"
  by (cases st) (simp_all add: SetLogger_def err_Set_stays err_SetMap_stays)

lemma err_configure_stays: "err c \<noteq> None \<Longrightarrow> err (configure L steps c) \<noteq> None"
  unfolding configure_def
proof (induction steps arbitrary: c)
  case Nil
  then show ?case by simp
next
  case (Cons st steps)
  have "err (apply_step L st c) \<noteq> None" using Cons.prems by (rule err_apply_step_stays)
  then show ?case using Cons.IH [of "apply_step L st c"] by simp
qed

lemma last_of_last: "last (last (a # xs) # ys) = last (a # xs @ ys)"
  by (cases ys) simp_all

lemma err_Set_own:
  "err (Set L k v c) =
     last (err c # map Some (case own_error L k v c of None \<Rightarrow> [] | Some e \<Rightarrow> [e]))"
  by (simp add: err_Set [of L k v c] own_error_def split: option.split)

lemma err_SetMap_last:
  "err (SetMap L options c) = last (err c # map Some (option_errors L options c))"
  unfolding SetMap_def
proof (induction options arbitrary: c)
  case Nil
  show ?case by simp
next
  case (Cons kv options)
  obtain k v where kv: "kv = (k, v)" by (cases kv)
  have "err (fold (\<lambda>(k, v). Set L k v) (kv # options) c) =
      last (err (Set L k v c) # map Some (option_errors L options (Set L k v c)))"
    using Cons.IH [of "Set L k v c"] by (simp add: kv)
  also have "\<dots> = last (err c #
      map Some (case own_error L k v c of None \<Rightarrow> [] | Some e \<Rightarrow> [e]) @
      map Some (option_errors L options (Set L k v c)))"
    by (simp only: err_Set_own [of L k v c] last_of_last)
  finally show ?case by (simp add: kv)
qed

lemma err_apply_step_last:
  "err (apply_step L st c) = last (err c # map Some (step_errors L st c))"
proof (cases st)
  case (DoSetLogger lg lv)
  then show ?thesis by (simp add: SetLogger_def)
next
  case (DoSet k v)
  then show ?thesis using err_Set_own [of L k v c] by simp
next
  case (DoSetMap options)
  then show ?thesis by (simp add: err_SetMap_last)
qed

lemma err_configure_last:
  "err (configure L steps c) = last (err c # map Some (recorded L steps c))"
  unfolding configure_def
proof (induction steps arbitrary: c)
  case Nil
  show ?case by simp
next
  case (Cons st steps)
  have "err (fold (apply_step L) (st # steps) c) =
      last (err (apply_step L st c) # map Some (recorded L steps (apply_step L st c)))"
    using Cons.IH [of "apply_step L st c"] by simp
  also have "\<dots> = last (err c # map Some (step_errors L st c) @
      map Some (recorded L steps (apply_step L st c)))"
    by (simp only: err_apply_step_last [of L st c] last_of_last)
  finally show ?case by simp
qed

text \<open>
  C1 as stated fails: the error field is overwritten by a later call that errs. Two
  wrong-typed options in a row leave the error of the second, and \<^verbatim>\<open>Start\<close> reports the
  second, not the first.
\<close>

theorem first_error_is_overwritten:
  "err (Set fake_nsq ''topic'' (VInt 1) (NewConsumer fake_nsq ''orders'' ''workers''))
     = Some (OptionError ''topic'' ''expected string'') \<and>
   err (Set fake_nsq ''channel'' (VInt 2)
         (Set fake_nsq ''topic'' (VInt 1) (NewConsumer fake_nsq ''orders'' ''workers'')))
     = Some (OptionError ''channel'' ''expected string'') \<and>
   returned (Start fake_nsq 7
       (Set fake_nsq ''channel'' (VInt 2)
         (Set fake_nsq ''topic'' (VInt 1) (NewConsumer fake_nsq ''orders'' ''workers''))) 0)
     = Return (Some (OptionError ''channel'' ''expected string'')) \<and>
   returned (Start fake_nsq 7
       (Set fake_nsq ''channel'' (VInt 2)
         (Set fake_nsq ''topic'' (VInt 1) (NewConsumer fake_nsq ''orders'' ''workers''))) 0)
     \<noteq> Return (err (Set fake_nsq ''topic'' (VInt 1) (NewConsumer fake_nsq ''orders'' ''workers'')))"
  by (simp add: Set_def NewConsumer_def Start_def returned_def)

text \<open>
  C1, amended. A call of \<^verbatim>\<open>Set\<close> leaves the error field as it was unless the call itself
  errs, and then its own error replaces what was there. So after a \<^verbatim>\<open>SetMap\<close>, and after
  any sequence of \<^verbatim>\<open>SetLogger\<close>, \<^verbatim>\<open>Set\<close> and \<^verbatim>\<open>SetMap\<close> calls, the field holds the error
  of the most recent call that erred, or what it held before when none erred: an
  error once recorded is never cleared, and a later error overwrites it. \<^verbatim>\<open>Start\<close>
  reports that most recent error, without calling the library.
\<close>

theorem deferred_error_last_wins:
  "err (Set L k v c) =
     (case err (Set L k v (c\<lparr>err := None\<rparr>)) of None \<Rightarrow> err c | Some e' \<Rightarrow> Some e') \<and>
   err (SetMap L options c) = last (err c # map Some (option_errors L options c)) \<and>
   err (configure L steps c) = last (err c # map Some (recorded L steps c)) \<and>
   (err c \<noteq> None \<longrightarrow> err (configure L steps c) \<noteq> None) \<and>
   (recorded L steps c \<noteq> [] \<longrightarrow>
      returned (Start L h (configure L steps c) w) = Return (Some (last (recorded L steps c))) \<and>
      calls_made (Start L h (configure L steps c) w) = []) \<and>
   (err (configure L steps c) = Some e \<longrightarrow>
      returned (Start L h (configure L steps c) w) = Return (Some e) \<and>
      calls_made (Start L h (configure L steps c) w) = [])"
proof (intro conjI impI)
  show "err (Set L k v c) =
     (case err (Set L k v (c\<lparr>err := None\<rparr>)) of None \<Rightarrow> err c | Some e' \<Rightarrow> Some e')"
    by (rule err_Set)
  show "err (SetMap L options c) = last (err c # map Some (option_errors L options c))"
    by (rule err_SetMap_last)
  show "err (configure L steps c) = last (err c # map Some (recorded L steps c))"
    by (rule err_configure_last)
  show "err c \<noteq> None \<Longrightarrow> err (configure L steps c) \<noteq> None"
    by (rule err_configure_stays)
  show "err (configure L steps c) = Some e \<Longrightarrow>
      returned (Start L h (configure L steps c) w) = Return (Some e)"
    by (simp add: Start_deferred returned_def)
  show "err (configure L steps c) = Some e \<Longrightarrow>
      calls_made (Start L h (configure L steps c) w) = []"
    by (simp add: Start_deferred calls_made_def)
next
  assume ne: "recorded L steps c \<noteq> []"
  then have "err (configure L steps c) = Some (last (recorded L steps c))"
    by (simp add: err_configure_last last_map)
  then show "returned (Start L h (configure L steps c) w) = Return (Some (last (recorded L steps c)))"
    and "calls_made (Start L h (configure L steps c) w) = []"
    by (simp_all add: Start_deferred returned_def calls_made_def)
qed

theorem deferred_error_last_wins_witness:
  "err (Set fake_nsq ''topic'' (VInt 1) (NewConsumer fake_nsq ''orders'' ''workers''))
     = Some (OptionError ''topic'' ''expected string'') \<and>
   recorded fake_nsq
      [DoSet ''nsqd'' (VString ''a:4150''),
       DoSetMap [(''channel'', VInt 2), (''max_in_flight'', VInt 8), (''bogus'', VInt 3)],
       DoSetLogger (UserLogger 3) LogLevelDebug]
      (Set fake_nsq ''topic'' (VInt 1) (NewConsumer fake_nsq ''orders'' ''workers''))
     = [OptionError ''channel'' ''expected string'', NsqError ''invalid option''] \<and>
   err (configure fake_nsq
      [DoSet ''nsqd'' (VString ''a:4150''),
       DoSetMap [(''channel'', VInt 2), (''max_in_flight'', VInt 8), (''bogus'', VInt 3)],
       DoSetLogger (UserLogger 3) LogLevelDebug]
      (Set fake_nsq ''topic'' (VInt 1) (NewConsumer fake_nsq ''orders'' ''workers'')))
     = Some (NsqError ''invalid option'') \<and>
   returned (Start fake_nsq 7 (configure fake_nsq
      [DoSet ''nsqd'' (VString ''a:4150''),
       DoSetMap [(''channel'', VInt 2), (''max_in_flight'', VInt 8), (''bogus'', VInt 3)],
       DoSetLogger (UserLogger 3) LogLevelDebug]
      (Set fake_nsq ''topic'' (VInt 1) (NewConsumer fake_nsq ''orders'' ''workers''))) 0)
     = Return (Some (NsqError ''invalid option'')) \<and>
   calls_made (Start fake_nsq 7 (configure fake_nsq
      [DoSet ''nsqd'' (VString ''a:4150''),
       DoSetMap [(''channel'', VInt 2), (''max_in_flight'', VInt 8), (''bogus'', VInt 3)],
       DoSetLogger (UserLogger 3) LogLevelDebug]
      (Set fake_nsq ''topic'' (VInt 1) (NewConsumer fake_nsq ''orders'' ''workers''))) 0)
     = [] \<and>
   err (SetMap fake_nsq [(''channel'', VInt 2), (''concurrency'', VString ''4'')]
      (Set fake_nsq ''topic'' (VInt 1) (NewConsumer fake_nsq ''orders'' ''workers'')))
     = Some (OptionError ''concurrency'' ''expected integer'')"
proof -
  let ?c = "Set fake_nsq ''topic'' (VInt 1) (NewConsumer fake_nsq ''orders'' ''workers'')"
  let ?steps = "[DoSet ''nsqd'' (VString ''a:4150''),
       DoSetMap [(''channel'', VInt 2), (''max_in_flight'', VInt 8), (''bogus'', VInt 3)],
       DoSetLogger (UserLogger 3) LogLevelDebug]"
  let ?options = "[(''channel'', VInt 2), (''concurrency'', VString ''4'')]"
  have c: "?c = \<lparr> client = None, config = [], nsqds = [], nsqlookupds = [], concurrency = 1,
       channel = ''workers'', topic = ''orders'', level = LogLevelInfo, log = StderrLogger,
       err = Some (OptionError ''topic'' ''expected string'') \<rparr>"
    by (simp add: Set_def NewConsumer_def fake_nsq_def)
  have e0: "err ?c = Some (OptionError ''topic'' ''expected string'')"
    unfolding c by simp
  have rec: "recorded fake_nsq ?steps ?c =
      [OptionError ''channel'' ''expected string'', NsqError ''invalid option'']"
    unfolding c by (simp add: own_error_def Set_def SetMap_def fake_nsq_def)
  have opts: "option_errors fake_nsq ?options ?c =
      [OptionError ''channel'' ''expected string'', OptionError ''concurrency'' ''expected integer'']"
    unfolding c by (simp add: own_error_def Set_def)
  have ne: "recorded fake_nsq ?steps ?c \<noteq> []"
    by (simp only: rec) simp
  note t = deferred_error_last_wins
    [of fake_nsq "''topic''" "VInt 1" ?c ?options ?steps 7 0 "NsqError ''invalid option''"]
  have m: "err (SetMap fake_nsq ?options ?c) = Some (OptionError ''concurrency'' ''expected integer'')"
    using t [THEN conjunct2, THEN conjunct1] by (simp only: opts) simp
  have e: "err (configure fake_nsq ?steps ?c) = Some (NsqError ''invalid option'')"
    using t [THEN conjunct2, THEN conjunct2, THEN conjunct1] by (simp only: rec) simp
  note s = t [THEN conjunct2, THEN conjunct2, THEN conjunct2, THEN conjunct2, THEN conjunct1,
      THEN mp, OF ne]
  have r: "returned (Start fake_nsq 7 (configure fake_nsq ?steps ?c) 0)
      = Return (Some (NsqError ''invalid option''))"
    using s [THEN conjunct1] by (simp only: rec) simp
  have k: "calls_made (Start fake_nsq 7 (configure fake_nsq ?steps ?c) 0) = []"
    by (rule s [THEN conjunct2])
  show ?thesis by (intro conjI e0 rec e r k m)
qed

section \<open>Concurrency\<close>

lemma concurrency_Set:
  "concurrency (Set L k v c) = last (concurrency c # requested (k, v))"
  by (simp add: Set_def requested_def split: val.split sum.split prod.split option.split)

lemma concurrency_SetMap:
  "concurrency (SetMap L options c) = last (concurrency c # concat (map requested options))"
  unfolding SetMap_def
proof (induction options arbitrary: c)
  case Nil
  then show ?case by simp
next
  case (Cons kv options)
  obtain k v where kv: "kv = (k, v)" by (cases kv)
  show ?case
    using Cons.IH [of "Set L k v c"]
    by (simp add: kv concurrency_Set [of L k v c] last_append)
qed

lemma concurrency_apply_step:
  "concurrency (apply_step L st c) = last (concurrency c # requests st)"
  by (cases st) (simp_all add: SetLogger_def concurrency_Set concurrency_SetMap)

lemma concurrency_configure:
  "concurrency (configure L steps c) = last (concurrency c # concat (map requests steps))"
  unfolding configure_def
proof (induction steps arbitrary: c)
  case Nil
  then show ?case by simp
next
  case (Cons st steps)
  show ?case
    using Cons.IH [of "apply_step L st c"]
    by (simp add: concurrency_apply_step [of L st c] last_append)
qed

text \<open>
  C8 as stated fails: \<^verbatim>\<open>Set\<close> stores any integer under \<^verbatim>\<open>concurrency\<close>, zero and negative
  ones too, and records no error.
\<close>

theorem concurrency_below_one:
  "concurrency (Set fake_nsq ''concurrency'' (VInt 0) (NewConsumer fake_nsq ''orders'' ''workers'')) = 0 \<and>
   \<not> 1 \<le> concurrency (Set fake_nsq ''concurrency'' (VInt 0) (NewConsumer fake_nsq ''orders'' ''workers'')) \<and>
   err (Set fake_nsq ''concurrency'' (VInt 0) (NewConsumer fake_nsq ''orders'' ''workers'')) = None \<and>
   concurrency (configure fake_nsq [DoSetMap [(''concurrency'', VInt (- 3))]]
       (NewConsumer fake_nsq ''orders'' ''workers'')) = - 3"
  by (simp add: Set_def NewConsumer_def configure_def SetMap_def)

text \<open>
  C8, amended. The concurrency of a new builder is 1. After any sequence of
  \<^verbatim>\<open>SetLogger\<close>, \<^verbatim>\<open>Set\<close> and \<^verbatim>\<open>SetMap\<close> calls it is the integer most recently given to the
  option \<^verbatim>\<open>concurrency\<close>, or 1 when none was given; so it is at least 1 whenever every
  integer given was.
\<close>

theorem concurrency_is_last_request:
  "concurrency (NewConsumer L t ch) = 1 \<and>
   concurrency (configure L steps (NewConsumer L t ch)) = last (1 # concat (map requests steps)) \<and>
   ((\<forall>n \<in> set (concat (map requests steps)). 1 \<le> n) \<longrightarrow>
      1 \<le> concurrency (configure L steps (NewConsumer L t ch)))"
proof -
  have one: "concurrency (NewConsumer L t ch) = 1" by (simp add: NewConsumer_def)
  have eq: "concurrency (configure L steps (NewConsumer L t ch)) = last (1 # concat (map requests steps))"
    by (simp only: concurrency_configure one)
  define rs where "rs = concat (map requests steps)"
  have "last (1 # rs) \<in> set (1 # rs)"
    by (rule last_in_set) simp
  then have "(\<forall>n \<in> set rs. 1 \<le> n) \<longrightarrow> 1 \<le> last (1 # rs)"
    by auto
  then have "(\<forall>n \<in> set (concat (map requests steps)). 1 \<le> n) \<longrightarrow>
      1 \<le> last (1 # concat (map requests steps))"
    by (simp only: rs_def)
  with one eq show ?thesis by (simp only: simp_thms)
qed

theorem concurrency_is_last_request_witness:
  "concat (map requests
        [DoSet ''concurrency'' (VInt 4), DoSetLogger (UserLogger 3) LogLevelDebug,
         DoSet ''concurrency'' (VString ''9''), DoSetMap [(''nsqd'', VString ''a:4150'')]]) = [4] \<and>
   1 \<le> concurrency (configure fake_nsq
        [DoSet ''concurrency'' (VInt 4), DoSetLogger (UserLogger 3) LogLevelDebug,
         DoSet ''concurrency'' (VString ''9''), DoSetMap [(''nsqd'', VString ''a:4150'')]]
        (NewConsumer fake_nsq ''orders'' ''workers'')) \<and>
   concurrency (configure fake_nsq
        [DoSet ''concurrency'' (VInt 4), DoSetLogger (UserLogger 3) LogLevelDebug,
         DoSet ''concurrency'' (VString ''9''), DoSetMap [(''nsqd'', VString ''a:4150'')]]
        (NewConsumer fake_nsq ''orders'' ''workers'')) = 4"
proof -
  let ?steps = "[DoSet ''concurrency'' (VInt 4), DoSetLogger (UserLogger 3) LogLevelDebug,
         DoSet ''concurrency'' (VString ''9''), DoSetMap [(''nsqd'', VString ''a:4150'')]]"
  have q: "concat (map requests ?steps) = [4]" by (simp add: requested_def)
  have h: "\<forall>n \<in> set (concat (map requests ?steps)). 1 \<le> n" by (simp add: requested_def)
  note t = concurrency_is_last_request [of fake_nsq "''orders''" "''workers''" ?steps]
  have g: "1 \<le> concurrency (configure fake_nsq ?steps (NewConsumer fake_nsq ''orders'' ''workers''))"
    by (rule t [THEN conjunct2, THEN conjunct2, THEN mp, OF h])
  have c: "concurrency (configure fake_nsq ?steps (NewConsumer fake_nsq ''orders'' ''workers'')) = 4"
    using t [THEN conjunct2, THEN conjunct1] by (simp only: q) simp
  show ?thesis by (intro conjI q g c)
qed

end
